theory Spec2Isabelle
  imports Main "HOL-Library.Sublist" "HOL-Library.AList"
begin

section \<open>Go strings and the string functions the scraper calls\<close>

text \<open>
  A Go string is a sequence of bytes, so it is a \<^typ>\<open>string\<close> here, one \<^typ>\<open>char\<close> for
  each byte. The functions of package \<open>strings\<close> that the scraper calls decode UTF-8 when
  they look for white space (\<open>unicode.IsSpace\<close>). A white-space rune is decoded from its
  shortest encoding only, its first byte is never a continuation byte, and
  \<open>utf8.DecodeLastRuneInString\<close> finds the same encoding from the end, so "the next rune
  is white space" is "one of the encodings below is a prefix" and "the last rune is white
  space" is "one of them is a suffix".
\<close>

definition NL :: char where
  "NL = CHR 0x0A"

definition SP :: char where
  "SP = CHR 0x20"

definition spaceEncodings :: "string list" where
  \<comment> \<open>The UTF-8 encodings of the runes for which \<open>unicode.IsSpace\<close> holds: U+0009..U+000D,
      U+0020, U+0085, U+00A0, U+1680, U+2000..U+200A, U+2028, U+2029, U+202F, U+205F, U+3000.\<close>
  "spaceEncodings =
     [[CHR 0x09], [CHR 0x0A], [CHR 0x0B], [CHR 0x0C], [CHR 0x0D], [CHR 0x20],
      [CHR 0xC2, CHR 0x85], [CHR 0xC2, CHR 0xA0],
      [CHR 0xE1, CHR 0x9A, CHR 0x80],
      [CHR 0xE2, CHR 0x80, CHR 0x80], [CHR 0xE2, CHR 0x80, CHR 0x81],
      [CHR 0xE2, CHR 0x80, CHR 0x82], [CHR 0xE2, CHR 0x80, CHR 0x83],
      [CHR 0xE2, CHR 0x80, CHR 0x84], [CHR 0xE2, CHR 0x80, CHR 0x85],
      [CHR 0xE2, CHR 0x80, CHR 0x86], [CHR 0xE2, CHR 0x80, CHR 0x87],
      [CHR 0xE2, CHR 0x80, CHR 0x88], [CHR 0xE2, CHR 0x80, CHR 0x89],
      [CHR 0xE2, CHR 0x80, CHR 0x8A],
      [CHR 0xE2, CHR 0x80, CHR 0xA8], [CHR 0xE2, CHR 0x80, CHR 0xA9],
      [CHR 0xE2, CHR 0x80, CHR 0xAF],
      [CHR 0xE2, CHR 0x81, CHR 0x9F],
      [CHR 0xE3, CHR 0x80, CHR 0x80]]"

definition leadingSpace :: "string \<Rightarrow> nat" where
  \<comment> \<open>Width in bytes of the white-space rune the string starts with, 0 when it starts with none.\<close>
  "leadingSpace s = (case find (\<lambda>e. prefix e s) spaceEncodings of None \<Rightarrow> 0 | Some e \<Rightarrow> length e)"

definition trailingSpace :: "string \<Rightarrow> nat" where
  \<comment> \<open>Width in bytes of the white-space rune the string ends with, 0 when it ends with none.\<close>
  "trailingSpace s = (case find (\<lambda>e. suffix e s) spaceEncodings of None \<Rightarrow> 0 | Some e \<Rightarrow> length e)"

function TrimLeftSpace :: "string \<Rightarrow> string" where
  "TrimLeftSpace s = (if leadingSpace s = 0 then s else TrimLeftSpace (drop (leadingSpace s) s))"
  by pat_completeness auto
termination
proof (relation "measure length")
  show "wf (measure length)" by simp
next
  fix s :: string
  assume "leadingSpace s \<noteq> 0"
  moreover have "leadingSpace s \<le> length s"
    by (auto simp: leadingSpace_def prefix_length_le split: option.splits simp: find_Some_iff)
  ultimately show "(drop (leadingSpace s) s, s) \<in> measure length" by simp
qed

function TrimRightFunc :: "string \<Rightarrow> string" where
  \<comment> \<open>\<open>strings.TrimRightFunc(s, unicode.IsSpace)\<close>\<close>
  "TrimRightFunc s =
     (if trailingSpace s = 0 then s else TrimRightFunc (take (length s - trailingSpace s) s))"
  by pat_completeness auto
termination
proof (relation "measure length")
  show "wf (measure length)" by simp
next
  fix s :: string
  assume n0: "trailingSpace s \<noteq> 0"
  have "trailingSpace s \<le> length s"
    by (auto simp: trailingSpace_def suffix_length_le split: option.splits simp: find_Some_iff)
  with n0 show "(take (length s - trailingSpace s) s, s) \<in> measure length" by simp
qed

definition TrimSpace :: "string \<Rightarrow> string" where
  \<comment> \<open>\<open>strings.TrimSpace\<close>: leading white space goes first, then trailing white space.\<close>
  "TrimSpace s = TrimRightFunc (TrimLeftSpace s)"

definition HasSuffix :: "string \<Rightarrow> string \<Rightarrow> bool" where
  "HasSuffix s suf = suffix suf s"

function ReplaceAll :: "string \<Rightarrow> string \<Rightarrow> string \<Rightarrow> string" where
  \<comment> \<open>\<open>strings.ReplaceAll(s, old, new)\<close> for a non-empty \<open>old\<close>, the only way the scraper calls
      it: non-overlapping occurrences, found from the left. (With an empty \<open>old\<close> Go inserts
      \<open>new\<close> around every rune; no call here does that and the model returns \<open>s\<close>.)\<close>
  "ReplaceAll s old new =
     (if old = [] \<or> s = [] then s
      else if prefix old s then new @ ReplaceAll (drop (length old) s) old new
      else hd s # ReplaceAll (tl s) old new)"
  by pat_completeness auto
termination
  by (relation "measure (\<lambda>(s, old, new). length s)") auto

fun Split :: "string \<Rightarrow> char \<Rightarrow> string list" where
  \<comment> \<open>\<open>strings.Split(s, sep)\<close> for a separator of one byte: one more piece than separators.\<close>
  "Split [] sep = [[]]"
| "Split (c # s) sep =
     (if c = sep then [] # Split s sep
      else (case Split s sep of [] \<Rightarrow> [[c]] | l # ls \<Rightarrow> (c # l) # ls))"

fun Join :: "string list \<Rightarrow> string \<Rightarrow> string" where
  "Join [] sep = []"
| "Join [x] sep = x"
| "Join (x # y # r) sep = x @ sep @ Join (y # r) sep"

function fieldsFrom :: "string \<Rightarrow> string \<Rightarrow> string list" where
  \<comment> \<open>The scan of \<open>strings.Fields\<close>: \<open>cur\<close> is the field being read.\<close>
  "fieldsFrom s cur =
     (if s = [] then (if cur = [] then [] else [cur])
      else if leadingSpace s = 0 then fieldsFrom (tl s) (cur @ [hd s])
      else (if cur = [] then [] else [cur]) @ fieldsFrom (drop (leadingSpace s) s) [])"
  by pat_completeness auto
termination
  by (relation "measure (\<lambda>(s, cur). length s)") auto

definition Fields :: "string \<Rightarrow> string list" where
  "Fields s = fieldsFrom s []"

definition Trim :: "string \<Rightarrow> char \<Rightarrow> string" where
  \<comment> \<open>\<open>strings.Trim(s, cutset)\<close> for a cutset of one byte.\<close>
  "Trim s c = rev (dropWhile (\<lambda>x. x = c) (rev (dropWhile (\<lambda>x. x = c) s)))"

text \<open>
  The equations of the four functions above that are not structurally recursive are unfolded
  by hand only.
\<close>

declare TrimLeftSpace.simps [simp del] TrimRightFunc.simps [simp del]
  ReplaceAll.simps [simp del] fieldsFrom.simps [simp del]

section \<open>The parsed document tree\<close>

text \<open>
  \<open>html.Node\<close> of \<open>golang.org/x/net/html\<close>, as the walk reads it: the node's \<open>Type\<close>, its
  \<open>Data\<close> (the tag name of an element, the content of a text node) and its children in
  document order (\<open>FirstChild\<close>, then \<open>NextSibling\<close>). The walk also reads \<open>n.Parent\<close>,
  \<open>n.Parent.Parent\<close> and \<open>n.Parent.NextSibling\<close>; in a tree these are determined by the path
  from the root, which the walk carries as the list of the ancestors of \<open>n\<close>, nearest first,
  each with its \<open>Data\<close> and with whether its \<open>NextSibling\<close> is nil.
\<close>

datatype NodeType =
  ErrorNode | TextNode | DocumentNode | ElementNode | CommentNode | DoctypeNode | RawNode

datatype Node = Node (Type: NodeType) (Data: string) (children: "Node list")

type_synonym ancestors = "(string \<times> bool) list"

datatype error =
    ParseError
  | StripFailed error
  | OutputFailed
  | InvalidURL
  | CreateOutputDirFailed
  | CreateTempDirFailed
  | StartScrapingFailed
  | NoPagesScraped
  | CreateZipFailed error
  | ZipFileFailed
  | ZipParseURLFailed string
  | OpenPDFFailed
  | ZipEntryFailed
  | ZipWriteFailed

section \<open>stripHTMLTags\<close>

record walk =
  textBuilder :: string
  lastNodeWasBlock :: bool
  lastNodeWasText :: bool

definition WriteString :: "string \<Rightarrow> walk \<Rightarrow> walk" where
  "WriteString s w = w\<lparr>textBuilder := textBuilder w @ s\<rparr>"

definition stylingTags :: "string \<Rightarrow> bool" where
  \<comment> \<open>The lookup \<open>stylingTags[tag]\<close>: false for a tag that is not a key of the map.\<close>
  "stylingTags tag = (tag \<in> set [''strong'', ''b'', ''em'', ''i'', ''u'', ''span'', ''mark'',
                                  ''small'', ''sub'', ''sup'', ''code''])"

definition skipped :: "NodeType \<Rightarrow> string \<Rightarrow> bool" where
  \<comment> \<open>The condition of the first \<open>if\<close> of \<open>extractText\<close>.\<close>
  "skipped ty d =
     (ty = CommentNode \<or>
      (ty = ElementNode \<and> (d = ''script'' \<or> d = ''style'' \<or> d = ''meta'' \<or> d = ''link'' \<or>
                            d = ''noscript'')))"

definition bullet :: string where
  \<comment> \<open>The Go literal of U+2022 and a space, in UTF-8.\<close>
  "bullet = [CHR 0xE2, CHR 0x80, CHR 0xA2, CHR 0x20]"

definition navLast :: "ancestors \<Rightarrow> bool" where
  \<comment> \<open>\<open>n.Parent.Parent != nil && n.Parent.Parent.Data == "nav" && n.Parent.NextSibling == nil\<close>,
      for a node \<open>n\<close> with a parent.\<close>
  "navLast anc =
     (case anc of
        (pd, plast) # (gd, glast) # rest \<Rightarrow> gd = ''nav'' \<and> plast
      | _ \<Rightarrow> False)"

definition visitText :: "ancestors \<Rightarrow> string \<Rightarrow> walk \<Rightarrow> walk" where
  \<comment> \<open>The body of \<open>if n.Type == html.TextNode\<close>, for a text node with content \<open>d\<close>.\<close>
  "visitText anc d w =
     (let text = (case anc of
                    (pd, plast) # rest \<Rightarrow> if stylingTags pd then TrimRightFunc d else TrimSpace d
                  | [] \<Rightarrow> TrimSpace d)
      in if text = [] then w
         else (case anc of
            [] \<Rightarrow>
              (WriteString text (if lastNodeWasText w then WriteString [SP] w else w))
                \<lparr>lastNodeWasText := True\<rparr>
          | (pd, plast) # rest \<Rightarrow>
              if pd = ''p'' then
                (WriteString [NL, NL] (WriteString text w))
                  \<lparr>lastNodeWasBlock := True, lastNodeWasText := False\<rparr>
              else if pd = ''li'' then
                (WriteString [NL] (WriteString text (WriteString bullet w)))
                  \<lparr>lastNodeWasBlock := False, lastNodeWasText := False\<rparr>
              else if pd \<in> set [''h1'', ''h2'', ''h3'', ''h4'', ''h5'', ''h6''] then
                (WriteString [NL, NL]
                   (WriteString text (if \<not> lastNodeWasBlock w then WriteString [NL] w else w)))
                  \<lparr>lastNodeWasBlock := True, lastNodeWasText := False\<rparr>
              else if pd = ''a'' then
                (let w1 = WriteString text (if lastNodeWasText w then WriteString [NL] w else w)
                 in (if navLast anc then WriteString [NL] w1 else w1)
                      \<lparr>lastNodeWasBlock := False, lastNodeWasText := True\<rparr>)
              else
                (WriteString text (if lastNodeWasText w then WriteString [SP] w else w))
                  \<lparr>lastNodeWasBlock := False, lastNodeWasText := True\<rparr>))"

fun extractText :: "ancestors \<Rightarrow> bool \<Rightarrow> Node \<Rightarrow> walk \<Rightarrow> walk"
  and extractChildren :: "ancestors \<Rightarrow> Node list \<Rightarrow> walk \<Rightarrow> walk" where
  \<comment> \<open>\<open>extractText anc isLast n w\<close>: the closure \<open>extractText(n)\<close>, where \<open>anc\<close> are the
      ancestors of \<open>n\<close>, \<open>isLast\<close> is \<open>n.NextSibling == nil\<close> and \<open>w\<close> is the value of the three
      captured variables. \<open>extractChildren\<close> is the loop over \<open>n.FirstChild\<close>, \<open>c.NextSibling\<close>.\<close>
  "extractText anc isLast (Node ty d cs) w =
     (if skipped ty d then w
      else if ty = ElementNode \<and> stylingTags d then extractChildren ((d, isLast) # anc) cs w
      else extractChildren ((d, isLast) # anc) cs
             (if ty = TextNode then visitText anc d w else w))"
| "extractChildren anc [] w = w"
| "extractChildren anc (c # cs) w = extractChildren anc cs (extractText anc (cs = []) c w)"

definition walk0 :: walk where
  \<comment> \<open>The empty builder and the zero values of the two flags.\<close>
  "walk0 = \<lparr>textBuilder = [], lastNodeWasBlock = False, lastNodeWasText = False\<rparr>"

definition finish :: "string \<Rightarrow> string" where
  \<comment> \<open>The statements of \<open>stripHTMLTags\<close> after the walk, on the content of the builder.\<close>
  "finish built =
     (let content = TrimSpace (ReplaceAll built [NL, NL, NL] [NL, NL])
      in if \<not> HasSuffix content [NL, NL] \<and> content \<noteq> [] then
           (if HasSuffix content [NL] then content @ [NL] else content @ [NL, NL])
         else content)"

definition stripParsed :: "Node \<Rightarrow> string" where
  \<comment> \<open>\<open>stripHTMLTags\<close> from the parsed document on: the root has no parent and no sibling.\<close>
  "stripParsed doc = finish (textBuilder (extractText [] True doc walk0))"

definition stripHTMLTags :: "(string \<Rightarrow> Node option) \<Rightarrow> string \<Rightarrow> string \<times> error option" where
  \<comment> \<open>\<open>parse\<close> is \<open>html.Parse\<close>, a function of the library: \<open>None\<close> is its error.\<close>
  "stripHTMLTags parse htmlContent =
     (case parse htmlContent of
        None \<Rightarrow> ([], Some ParseError)
      | Some doc \<Rightarrow> (stripParsed doc, None))"


section \<open>The scraper: createPDF, createZip, the response callback, ScrapeAndSave\<close>

text \<open>
  What lies outside the repository is a parameter of the model. \<open>url.URL\<close> is the record of
  the three things the scraper reads from one: the result of the method \<open>String()\<close> and the
  fields \<open>Host\<close> and \<open>Path\<close>. The record \<open>env\<close> holds the libraries and the machine:
  \<open>html.Parse\<close> and \<open>url.Parse\<close> (\<open>None\<close> is their error), whether \<open>os.MkdirAll\<close> of the
  directory of the output path succeeds, the directory \<open>os.MkdirTemp\<close> returns, the crawl of
  colly (\<open>None\<close> when \<open>c.Visit\<close> returns an error, which it does only when the first fetch
  fails, before any response callback; otherwise the responses handed to the callback, in
  the order of the calls), and whether writing a PDF, creating the archive file, creating
  an archive entry and copying a file into it succeed.

  A PDF file is the list of the lines written to it by \<open>MultiCell\<close>; an archive is the list of
  its entries, each a name and the content copied into it.
\<close>

record URL =
  String :: string
  Host :: string
  Path :: string

record response =
  RequestURL :: URL
  Body :: string

type_synonym pdf = "string list"

record env =
  htmlParse :: "string \<Rightarrow> Node option"
  urlParse :: "string \<Rightarrow> URL option"
  mkdirAll :: "string \<Rightarrow> bool"
  mkdirTemp :: "string option"
  visit :: "string \<Rightarrow> response list option"
  outputFileAndClose :: "string \<Rightarrow> bool"
  osCreate :: "string \<Rightarrow> bool"
  archiveCreate :: "string \<Rightarrow> bool"
  ioCopy :: "string \<Rightarrow> bool"

record world =
  pdfFiles :: "string \<rightharpoonup> pdf"
  zipFiles :: "string \<rightharpoonup> (string \<times> pdf) list"

record Scraper =
  visited :: "string list"
  pdfs :: "(string \<times> string) list"
  stripHTML :: bool
  clean :: bool

definition NewScraper :: "bool \<Rightarrow> bool \<Rightarrow> Scraper" where
  "NewScraper strip cl =
     \<lparr>visited = [], pdfs = [], stripHTML = strip, clean = (if cl \<and> \<not> strip then False else cl)\<rparr>"

fun cleanLoop :: "string list \<Rightarrow> string list \<Rightarrow> string list" where
  \<comment> \<open>\<open>for _, line := range lines\<close> of the clean mode; the second argument is \<open>cleanedLines\<close>.\<close>
  "cleanLoop [] cleanedLines = cleanedLines"
| "cleanLoop (line # lines) cleanedLines =
     (let trimmed = TrimSpace line
      in if trimmed = [] then cleanLoop lines (cleanedLines @ [line])
         else if length (Fields trimmed) > 2 then cleanLoop lines (cleanedLines @ [line])
         else cleanLoop lines cleanedLines)"

definition cleanContent :: "string \<Rightarrow> string" where
  "cleanContent content = Join (cleanLoop (Split content NL) []) [NL]"

fun MultiCells :: "string list \<Rightarrow> pdf" where
  \<comment> \<open>The last loop of \<open>createPDF\<close>: the lines handed to \<open>pdf.MultiCell\<close>, in order.\<close>
  "MultiCells [] = []"
| "MultiCells (line # lines) =
     (if TrimSpace line \<noteq> [] then TrimSpace line # MultiCells lines else MultiCells lines)"

definition pdfContent :: "env \<Rightarrow> Scraper \<Rightarrow> string \<Rightarrow> error + string" where
  \<comment> \<open>The variable \<open>content\<close> of \<open>createPDF\<close> when the last loop starts, or the early return.\<close>
  "pdfContent e s htmlContent =
     (if stripHTML s then
        (case stripHTMLTags (htmlParse e) htmlContent of
           (content, Some err) \<Rightarrow> Inl (StripFailed err)
         | (content, None) \<Rightarrow> Inr (if clean s then cleanContent content else content))
      else Inr htmlContent)"

definition createPDF :: "env \<Rightarrow> Scraper \<Rightarrow> string \<Rightarrow> string \<Rightarrow> world \<Rightarrow> error option \<times> world" where
  "createPDF e s filename htmlContent wd =
     (case pdfContent e s htmlContent of
        Inl err \<Rightarrow> (Some err, wd)
      | Inr content \<Rightarrow>
          if outputFileAndClose e filename
          then (None, wd\<lparr>pdfFiles := (pdfFiles wd)(filename \<mapsto> MultiCells (Split content NL))\<rparr>)
          else (Some OutputFailed, wd))"

definition sanitizePath :: "string \<Rightarrow> string" where
  \<comment> \<open>The four statements on \<open>urlPath\<close>, the same in the response callback and in \<open>createZip\<close>.\<close>
  "sanitizePath urlPath =
     ReplaceAll (Trim (if urlPath = [] \<or> urlPath = ''/'' then ''index'' else urlPath) (CHR ''/''))
       ''/'' ''_''"

definition zipEntryName :: "URL \<Rightarrow> string" where
  \<comment> \<open>\<open>fmt.Sprintf("%s_%s.pdf", parsedURL.Host, urlPath)\<close>\<close>
  "zipEntryName u = Host u @ ''_'' @ sanitizePath (Path u) @ ''.pdf''"

definition pathJoin :: "string \<Rightarrow> string \<Rightarrow> string" where
  \<comment> \<open>\<open>path.Join\<close> of the temporary directory and a name without a slash.\<close>
  "pathJoin dir name = dir @ ''/'' @ name"

fun zipLoop :: "env \<Rightarrow> world \<Rightarrow> (string \<times> string) list \<Rightarrow> (string \<times> pdf) list
                 \<Rightarrow> error option \<times> (string \<times> pdf) list" where
  \<comment> \<open>\<open>for urlStr, pdfPath := range s.pdfs\<close>, in the order the list gives; the last argument
      is the archive written so far.\<close>
  "zipLoop e wd [] archive = (None, archive)"
| "zipLoop e wd ((urlStr, pdfPath) # rest) archive =
     (case urlParse e urlStr of
        None \<Rightarrow> (Some (ZipParseURLFailed urlStr), archive)
      | Some parsedURL \<Rightarrow>
          (case pdfFiles wd pdfPath of
             None \<Rightarrow> (Some OpenPDFFailed, archive)
           | Some file \<Rightarrow>
               if \<not> archiveCreate e (zipEntryName parsedURL) then (Some ZipEntryFailed, archive)
               else if \<not> ioCopy e pdfPath
               then (Some ZipWriteFailed, archive @ [(zipEntryName parsedURL, [])])
               else zipLoop e wd rest (archive @ [(zipEntryName parsedURL, file)])))"

definition createZip :: "env \<Rightarrow> Scraper \<Rightarrow> string \<Rightarrow> world \<Rightarrow> error option \<times> world" where
  "createZip e s zipname wd =
     (if \<not> osCreate e zipname then (Some ZipFileFailed, wd)
      else (case zipLoop e wd (pdfs s) [] of
              (err, archive) \<Rightarrow> (err, wd\<lparr>zipFiles := (zipFiles wd)(zipname \<mapsto> archive)\<rparr>)))"

definition OnResponse :: "env \<Rightarrow> string \<Rightarrow> response \<Rightarrow> Scraper \<times> world \<Rightarrow> Scraper \<times> world" where
  \<comment> \<open>The callback of \<open>c.OnResponse\<close>, run for one response; \<open>LoadOrStore\<close> is the test and
      the append. A failed PDF is removed again.\<close>
  "OnResponse e tmpDir r sw =
     (case sw of (s, wd) \<Rightarrow>
        if String (RequestURL r) \<in> set (visited s) then (s, wd)
        else
          (let s1 = s\<lparr>visited := visited s @ [String (RequestURL r)]\<rparr>;
               filename = pathJoin tmpDir (zipEntryName (RequestURL r))
           in (case createPDF e s1 filename (Body r) wd of
                 (Some err, wd1) \<Rightarrow> (s1, wd1\<lparr>pdfFiles := (pdfFiles wd1)(filename := None)\<rparr>)
               | (None, wd1) \<Rightarrow>
                   (s1\<lparr>pdfs := AList.update (String (RequestURL r)) filename (pdfs s1)\<rparr>, wd1))))"

definition RemoveAll :: "string \<Rightarrow> world \<Rightarrow> world" where
  \<comment> \<open>The deferred \<open>os.RemoveAll(tmpDir)\<close>.\<close>
  "RemoveAll dir wd =
     wd\<lparr>pdfFiles := (\<lambda>p. if prefix (dir @ ''/'') p then None else pdfFiles wd p)\<rparr>"

definition scrapeBody :: "env \<Rightarrow> string \<Rightarrow> string \<Rightarrow> string \<Rightarrow> Scraper \<times> world
                            \<Rightarrow> error option \<times> Scraper \<times> world" where
  \<comment> \<open>\<open>ScrapeAndSave\<close> from the collector on, before the deferred cleanup.\<close>
  "scrapeBody e tmpDir startURL outputPath sw =
     (case visit e startURL of
        None \<Rightarrow> (Some StartScrapingFailed, sw)
      | Some rs \<Rightarrow>
          (case fold (OnResponse e tmpDir) rs sw of (s1, wd1) \<Rightarrow>
             if length (pdfs s1) > 0 then
               (case createZip e s1 outputPath wd1 of
                  (Some err, wd2) \<Rightarrow> (Some (CreateZipFailed err), s1, wd2)
                | (None, wd2) \<Rightarrow> (None, s1, wd2))
             else (Some NoPagesScraped, s1, wd1)))"

definition ScrapeAndSave :: "env \<Rightarrow> string \<Rightarrow> string \<Rightarrow> Scraper \<times> world
                               \<Rightarrow> error option \<times> Scraper \<times> world" where
  "ScrapeAndSave e startURL outputPath sw =
     (case urlParse e startURL of
        None \<Rightarrow> (Some InvalidURL, sw)
      | Some parsedURL \<Rightarrow>
          if \<not> mkdirAll e outputPath then (Some CreateOutputDirFailed, sw)
          else (case mkdirTemp e of
                  None \<Rightarrow> (Some CreateTempDirFailed, sw)
                | Some tmpDir \<Rightarrow>
                    (case scrapeBody e tmpDir startURL outputPath sw of
                       (err, s1, wd1) \<Rightarrow> (err, s1, RemoveAll tmpDir wd1))))"

section \<open>Documents of suppressed nodes only, and splicing\<close>

text \<open>
  A document that contains only suppressed tags or comments: every node is a comment or a
  \<open>script\<close>, \<open>style\<close>, \<open>meta\<close>, \<open>link\<close> or \<open>noscript\<close> element (with anything below it), or
  it is one of the other nodes of such a document, which are the elements the parser adds
  (\<open>html\<close>, \<open>head\<close>, \<open>body\<close>), the document node, and the white space between the tags.
\<close>

fun onlySkipped :: "Node \<Rightarrow> bool" where
  "onlySkipped (Node ty d cs) =
     (skipped ty d \<or>
      ((ty = TextNode \<longrightarrow> TrimSpace d = [] \<and> TrimRightFunc d = []) \<and>
       (\<forall>c \<in> set cs. onlySkipped c)))"

text \<open>
  Splicing out the styling elements, as the specification words it: every element whose tag
  is in the styling set is replaced, in place, by its (spliced) children.
\<close>

fun spliceStyling :: "Node \<Rightarrow> Node list"
  and spliceAll :: "Node list \<Rightarrow> Node list" where
  "spliceStyling (Node ty d cs) =
     (if ty = ElementNode \<and> stylingTags d then spliceAll cs else [Node ty d (spliceAll cs)])"
| "spliceAll [] = []"
| "spliceAll (c # cs) = spliceStyling c @ spliceAll cs"

definition spliced :: "Node \<Rightarrow> Node" where
  "spliced doc = Node (Type doc) (Data doc) (spliceAll (children doc))"

section \<open>Concrete documents\<close>

text \<open>
  The trees \<open>html.Parse\<close> builds: a document node with one \<open>html\<close> element, which holds
  \<open>head\<close> and \<open>body\<close>. The document node has the empty string as \<open>Data\<close>.
\<close>

definition element :: "string \<Rightarrow> Node list \<Rightarrow> Node" where
  "element tag cs = Node ElementNode tag cs"

definition textNode :: "string \<Rightarrow> Node" where
  "textNode d = Node TextNode d []"

definition parsed :: "Node list \<Rightarrow> Node list \<Rightarrow> Node" where
  "parsed hd_cs body_cs =
     Node DocumentNode [] [element ''html'' [element ''head'' hd_cs, element ''body'' body_cs]]"

definition scriptsOnly :: Node where
  \<comment> \<open>\<open><style>body { color: red; }</style>\<close>, a newline, \<open><script>console.log(1);</script>\<close>
      and \<open><!-- note -->\<close>: all of it goes to \<open>head\<close>.\<close>
  "scriptsOnly =
     parsed [element ''style'' [textNode ''body { color: red; }''], textNode [NL],
             element ''script'' [textNode ''console.log(1);''], Node CommentNode '' note '' []]
            []"

definition boldThenPara :: Node where
  \<comment> \<open>\<open><p><b>x</b></p><p>y</p>\<close>\<close>
  "boldThenPara =
     parsed [] [element ''p'' [element ''b'' [textNode ''x'']], element ''p'' [textNode ''y'']]"

definition headingThenPara :: Node where
  \<comment> \<open>\<open><h1>T</h1><p>C</p>\<close>\<close>
  "headingThenPara = parsed [] [element ''h1'' [textNode ''T''], element ''p'' [textNode ''C'']]"

definition afterHome :: walk where
  \<comment> \<open>The walk after the text of a first anchor, \<open>Home\<close>, in an empty builder.\<close>
  "afterHome = \<lparr>textBuilder = ''Home'', lastNodeWasBlock = False, lastNodeWasText = True\<rparr>"


definition blankLineDoc :: Node where
  \<comment> \<open>\<open><p>a b c</p><span> \n x y z</span>\<close>, where \<open>\n\<close> stands for a newline in the text
      of \<open>span\<close>\<close>
  "blankLineDoc =
     parsed [] [element ''p'' [textNode ''a b c''],
                element ''span'' [textNode ([SP, NL, SP] @ ''x y z'')]]"

section \<open>A concrete site and machine\<close>

text \<open>
  A site of three pages on one host: the root, and one page reached under two URLs that
  differ in the query string only. Two more URLs differ in a trailing slash only. On this
  machine every operation succeeds; on \<open>failEnv\<close> no PDF can be written.
\<close>

definition urlRoot :: URL where
  "urlRoot = \<lparr>String = ''http://example.com/'', Host = ''example.com'', Path = ''/''\<rparr>"

definition urlA :: URL where
  "urlA = \<lparr>String = ''http://example.com/a?x=1'', Host = ''example.com'', Path = ''/a''\<rparr>"

definition urlB :: URL where
  "urlB = \<lparr>String = ''http://example.com/a?x=2'', Host = ''example.com'', Path = ''/a''\<rparr>"

definition urlC :: URL where
  "urlC = \<lparr>String = ''http://example.com/docs/api'', Host = ''example.com'', Path = ''/docs/api''\<rparr>"

definition urlD :: URL where
  "urlD = \<lparr>String = ''http://example.com/docs/api/'', Host = ''example.com'', Path = ''/docs/api/''\<rparr>"

definition listDoc :: Node where
  \<comment> \<open>\<open><ul><li>Point 1</li><li>x</li></ul><p>ok</p>\<close>\<close>
  "listDoc =
     parsed [] [element ''ul'' [element ''li'' [textNode ''Point 1''], element ''li'' [textNode ''x'']],
                element ''p'' [textNode ''ok'']]"

definition demoEnv :: env where
  "demoEnv =
     \<lparr>htmlParse = (\<lambda>h. if h = ''<ul><li>Point 1</li><li>x</li></ul><p>ok</p>'' then Some listDoc
                        else None),
      urlParse = (\<lambda>u. find (\<lambda>x. String x = u) [urlRoot, urlA, urlB, urlC, urlD]),
      mkdirAll = (\<lambda>p. True),
      mkdirTemp = Some ''/tmp/webscraper1'',
      visit = (\<lambda>u. if u = ''http://example.com/''
                    then Some [\<lparr>RequestURL = urlRoot, Body = ''root''\<rparr>,
                               \<lparr>RequestURL = urlA, Body = ''one''\<rparr>,
                               \<lparr>RequestURL = urlB, Body = ''two''\<rparr>]
                    else None),
      outputFileAndClose = (\<lambda>f. True),
      osCreate = (\<lambda>z. True),
      archiveCreate = (\<lambda>n. True),
      ioCopy = (\<lambda>p. True)\<rparr>"

definition failEnv :: env where
  "failEnv = demoEnv\<lparr>outputFileAndClose := (\<lambda>f. False)\<rparr>"

definition world0 :: world where
  "world0 = \<lparr>pdfFiles = Map.empty, zipFiles = Map.empty\<rparr>"

definition twoPdfs :: Scraper where
  \<comment> \<open>A scraper that holds two artifacts.\<close>
  "twoPdfs =
     \<lparr>visited = [''http://example.com/'', ''http://example.com/docs/api''],
      pdfs = [(''http://example.com/'', ''/tmp/webscraper1/example.com_index.pdf''),
              (''http://example.com/docs/api'', ''/tmp/webscraper1/example.com_docs_api.pdf'')],
      stripHTML = False, clean = False\<rparr>"

definition twoFiles :: world where
  "twoFiles =
     \<lparr>pdfFiles = [''/tmp/webscraper1/example.com_index.pdf'' \<mapsto> [''root''],
                  ''/tmp/webscraper1/example.com_docs_api.pdf'' \<mapsto> [''api'']],
      zipFiles = Map.empty\<rparr>"

definition demoRun :: "error option \<times> Scraper \<times> world" where
  \<comment> \<open>The whole operation on the site, with a new scraper that neither strips nor cleans.\<close>
  "demoRun =
     ScrapeAndSave demoEnv ''http://example.com/'' ''out/example.com.zip''
       (NewScraper False False, world0)"

definition failedRun :: "error option \<times> Scraper \<times> world" where
  \<comment> \<open>The same where no PDF can be written.\<close>
  "failedRun =
     ScrapeAndSave failEnv ''http://example.com/'' ''out/example.com.zip''
       (NewScraper False False, world0)"

section \<open>White space at the end of a trimmed string\<close>

lemma trailingSpace_TrimRightFunc: "trailingSpace (TrimRightFunc s) = 0"
proof (induction s rule: TrimRightFunc.induct)
  case (1 s)
  show ?case
  proof (cases "trailingSpace s = 0")
    case True
    then show ?thesis by (subst TrimRightFunc.simps) simp
  next
    case False
    with "1" show ?thesis by (subst TrimRightFunc.simps) simp
  qed
qed

lemma trailingSpace_0_last:
  assumes "trailingSpace s = 0" "s \<noteq> []"
  shows "last s \<noteq> NL"
proof
  assume "last s = NL"
  with assms(2) have "suffix [NL] s"
    by (metis append_butlast_last_id suffixI)
  moreover have "[NL] \<in> set spaceEncodings"
    by (simp add: spaceEncodings_def NL_def)
  ultimately have "find (\<lambda>e. suffix e s) spaceEncodings \<noteq> None"
    by (auto simp: find_None_iff)
  then obtain e where e: "find (\<lambda>e. suffix e s) spaceEncodings = Some e"
    by auto
  then have "e \<in> set spaceEncodings"
    by (auto simp: find_Some_iff)
  then have "e \<noteq> []"
    by (auto simp: spaceEncodings_def)
  with e assms(1) show False
    by (simp add: trailingSpace_def)
qed

lemma TrimSpace_last: "TrimSpace s \<noteq> [] \<Longrightarrow> last (TrimSpace s) \<noteq> NL"
  unfolding TrimSpace_def by (rule trailingSpace_0_last [OF trailingSpace_TrimRightFunc])

lemma TrimSpace_Nil: "TrimSpace [] = []"
  by code_simp

lemma ReplaceAll_Nil: "ReplaceAll [] old new = []"
  by (subst ReplaceAll.simps) simp

text \<open>
  After \<open>strings.TrimSpace\<close> the content never ends in a newline, so of the three ways
  through the last \<open>if\<close> of \<open>stripHTMLTags\<close> only two are taken: the empty content stays
  empty, and any other content gets two newlines.
\<close>

lemma finish_eq:
  "finish built =
     (if TrimSpace (ReplaceAll built [NL, NL, NL] [NL, NL]) = [] then []
      else TrimSpace (ReplaceAll built [NL, NL, NL] [NL, NL]) @ [NL, NL])"
proof -
  define content where "content = TrimSpace (ReplaceAll built [NL, NL, NL] [NL, NL])"
  have "\<not> HasSuffix content [NL]" if "content \<noteq> []"
    using TrimSpace_last [of "ReplaceAll built [NL, NL, NL] [NL, NL]"] that
    by (auto simp: HasSuffix_def content_def suffix_def)
  moreover have "\<not> HasSuffix content [NL, NL]" if "content \<noteq> []"
    using TrimSpace_last [of "ReplaceAll built [NL, NL, NL] [NL, NL]"] that
    by (auto simp: HasSuffix_def content_def suffix_def)
  ultimately show ?thesis
    by (auto simp: finish_def Let_def content_def [symmetric])
qed

lemma finish_Nil: "finish [] = []"
  by (simp add: finish_eq ReplaceAll_Nil TrimSpace_Nil)

lemma finish_cases:
  "finish built = [] \<or> (\<exists>body. finish built = body @ [NL, NL] \<and> body \<noteq> [] \<and> last body \<noteq> NL)"
  using TrimSpace_last [of "ReplaceAll built [NL, NL, NL] [NL, NL]"]
  by (auto simp: finish_eq)

section \<open>The end of the extracted text\<close>

text \<open>
  C1. For every input HTML string, \<open>stripHTMLTags\<close> returns a string that, when it is not
  empty, ends with exactly two newline characters: it is a non-empty body that does not end
  in a newline, followed by two newlines. This holds for every parser, also where the parse
  fails (the returned string is empty then). A document whose walk writes nothing to the
  builder gives the empty string, with no newline appended.
\<close>

theorem stripHTMLTags_two_trailing_newlines:
  "(fst (stripHTMLTags parse html) \<noteq> [] \<longrightarrow>
      (\<exists>body. fst (stripHTMLTags parse html) = body @ [NL, NL] \<and> body \<noteq> [] \<and> last body \<noteq> NL))
   \<and> (parse html = Some doc \<and> textBuilder (extractText [] True doc walk0) = [] \<longrightarrow>
        stripHTMLTags parse html = ([], None))"
proof (intro conjI impI)
  assume ne: "fst (stripHTMLTags parse html) \<noteq> []"
  then obtain d where d: "parse html = Some d"
    by (cases "parse html") (auto simp: stripHTMLTags_def)
  then have r: "fst (stripHTMLTags parse html) = finish (textBuilder (extractText [] True d walk0))"
    by (simp add: stripHTMLTags_def stripParsed_def)
  with ne finish_cases [of "textBuilder (extractText [] True d walk0)"]
  show "\<exists>body. fst (stripHTMLTags parse html) = body @ [NL, NL] \<and> body \<noteq> [] \<and> last body \<noteq> NL"
    by auto
next
  assume "parse html = Some doc \<and> textBuilder (extractText [] True doc walk0) = []"
  then show "stripHTMLTags parse html = ([], None)"
    by (simp add: stripHTMLTags_def stripParsed_def finish_Nil)
qed

theorem stripHTMLTags_two_trailing_newlines_witness:
  "fst (stripHTMLTags (\<lambda>h. Some (parsed [] [element ''p'' [textNode ''Hello World'']]))
          ''<p>Hello World</p>'') \<noteq> []
   \<and> (\<exists>body. fst (stripHTMLTags (\<lambda>h. Some (parsed [] [element ''p'' [textNode ''Hello World'']]))
                     ''<p>Hello World</p>'') = body @ [NL, NL] \<and> body \<noteq> [] \<and> last body \<noteq> NL)
   \<and> (\<lambda>h. Some (parsed [] [])) [] = Some (parsed [] [])
   \<and> textBuilder (extractText [] True (parsed [] []) walk0) = []
   \<and> stripHTMLTags (\<lambda>h. Some (parsed [] [])) [] = ([], None)"
proof -
  have ne: "fst (stripHTMLTags (\<lambda>h. Some (parsed [] [element ''p'' [textNode ''Hello World'']]))
                  ''<p>Hello World</p>'') \<noteq> []"
    by code_simp
  have em: "textBuilder (extractText [] True (parsed [] []) walk0) = []"
    by code_simp
  from ne em
    stripHTMLTags_two_trailing_newlines
      [of "\<lambda>h. Some (parsed [] [element ''p'' [textNode ''Hello World'']])" "''<p>Hello World</p>''"]
    stripHTMLTags_two_trailing_newlines [of "\<lambda>h. Some (parsed [] [])" "[]" "parsed [] []"]
  show ?thesis by simp
qed


section \<open>The rules of the walk, one parent tag at a time\<close>

lemma extractText_text_leaf: "extractText anc isLast (Node TextNode d []) w = visitText anc d w"
  by (simp add: skipped_def)

lemma styling_not_skipped: "stylingTags tag \<Longrightarrow> \<not> skipped ElementNode tag"
  by (auto simp: stylingTags_def skipped_def)

lemma styling_not_block:
  "stylingTags tag \<Longrightarrow>
     tag \<noteq> ''p'' \<and> tag \<noteq> ''li'' \<and> tag \<noteq> ''a'' \<and>
     tag \<notin> set [''h1'', ''h2'', ''h3'', ''h4'', ''h5'', ''h6'']"
  by (auto simp: stylingTags_def)

lemma visitText_styling:
  assumes "stylingTags tag"
  shows "visitText ((tag, pl) # anc) d w =
         (if TrimRightFunc d = [] then w
          else w\<lparr>textBuilder :=
                    textBuilder w @ (if lastNodeWasText w then [SP] else []) @ TrimRightFunc d,
                  lastNodeWasBlock := False, lastNodeWasText := True\<rparr>)"
  using styling_not_block [OF assms] assms
  by (simp add: visitText_def Let_def WriteString_def)

lemma visitText_anchor:
  assumes "TrimSpace d \<noteq> []"
  shows "visitText ((''a'', aLast) # rest) d w =
     w\<lparr>textBuilder := textBuilder w @ (if lastNodeWasText w then [NL] else []) @ TrimSpace d
                        @ (if aLast \<and> map fst (take 1 rest) = [''nav''] then [NL] else []),
       lastNodeWasBlock := False, lastNodeWasText := True\<rparr>"
proof -
  have s: "\<not> stylingTags ''a''"
    by (simp add: stylingTags_def)
  have n: "navLast ((''a'', aLast) # rest) = (aLast \<and> map fst (take 1 rest) = [''nav''])"
    by (cases rest) (auto simp: navLast_def)
  show ?thesis using assms s
    by (simp add: visitText_def Let_def WriteString_def n)
qed

lemma visitText_heading:
  assumes "TrimSpace d \<noteq> []" "h \<in> {''h1'', ''h2'', ''h3'', ''h4'', ''h5'', ''h6''}"
  shows "visitText ((h, hLast) # rest) d w =
     w\<lparr>textBuilder :=
          textBuilder w @ (if \<not> lastNodeWasBlock w then [NL] else []) @ TrimSpace d @ [NL, NL],
       lastNodeWasBlock := True, lastNodeWasText := False\<rparr>"
proof -
  from assms(2) have s: "\<not> stylingTags h" "h \<noteq> ''p''" "h \<noteq> ''li''"
    by (auto simp: stylingTags_def)
  from assms(2) have m: "h \<in> set [''h1'', ''h2'', ''h3'', ''h4'', ''h5'', ''h6'']"
    by simp
  show ?thesis using assms(1) s
    by (simp only: visitText_def Let_def WriteString_def m list.case prod.case if_True if_False)
       simp
qed

lemma visitText_blank:
  "TrimSpace d = [] \<Longrightarrow> TrimRightFunc d = [] \<Longrightarrow> visitText anc d w = w"
  by (auto simp: visitText_def Let_def split: list.splits)

lemma onlySkipped_extractText:
  "onlySkipped n \<Longrightarrow> extractText anc isLast n w = w"
  "(\<forall>c \<in> set cs. onlySkipped c) \<Longrightarrow> extractChildren anc cs w = w"
proof (induction anc isLast n w and anc cs w rule: extractText_extractChildren.induct)
  case (1 anc isLast ty d cs w)
  then show ?case by (auto simp: visitText_blank)
next
  case (2 anc w)
  then show ?case by simp
next
  case (3 anc c cs w)
  then show ?case by simp
qed

text \<open>
  C2. A comment node, and an element node whose tag is \<open>script\<close>, \<open>style\<close>, \<open>meta\<close>, \<open>link\<close> or
  \<open>noscript\<close>, leaves the builder and the two flags as they were, whatever its children
  \<open>cs\<close> are: nothing below it is walked. A parsed document that contains only such nodes
  gives the empty string.
\<close>

theorem skipped_nodes_emit_nothing:
  "extractText anc isLast (Node CommentNode d cs) w = w
   \<and> (tag \<in> {''script'', ''style'', ''meta'', ''link'', ''noscript''} \<longrightarrow>
        extractText anc isLast (Node ElementNode tag cs) w = w)
   \<and> (parse html = Some doc \<and> onlySkipped doc \<longrightarrow> stripHTMLTags parse html = ([], None))"
  by (auto simp: skipped_def stripHTMLTags_def stripParsed_def onlySkipped_extractText
                 finish_Nil walk0_def)

theorem skipped_nodes_emit_nothing_witness:
  "''script'' \<in> {''script'', ''style'', ''meta'', ''link'', ''noscript''}
   \<and> extractText [] True (Node ElementNode ''script'' [textNode ''console.log(1);'']) walk0 = walk0
   \<and> (\<lambda>h. Some scriptsOnly) ''<script>console.log(1);</script>'' = Some scriptsOnly
   \<and> onlySkipped scriptsOnly
   \<and> stripHTMLTags (\<lambda>h. Some scriptsOnly) ''<script>console.log(1);</script>'' = ([], None)"
proof -
  have o: "onlySkipped scriptsOnly"
    by code_simp
  from o skipped_nodes_emit_nothing
           [of "[]" True "[]" "[textNode ''console.log(1);'']" walk0 "''script''"
               "\<lambda>h. Some scriptsOnly" "''<script>console.log(1);</script>''" scriptsOnly]
  show ?thesis by simp
qed

text \<open>
  C3, as the specification states it: the extraction of a tree equals the extraction of the
  tree with every styling element spliced out. It fails on \<open><p><b>x</b></p><p>y</p>\<close>: the
  text of \<open>b\<close> is written by the rule for inline text, with \<open>b\<close> as its parent, and the
  result is \<open>xy\<close> and two newlines; with \<open>b\<close> spliced out the text is a child of \<open>p\<close> and the
  result is \<open>x\<close>, two newlines, \<open>y\<close>, two newlines.
\<close>

theorem splice_styling_counterexample:
  "stripParsed boldThenPara \<noteq> stripParsed (spliced boldThenPara)"
  by code_simp

text \<open>
  C3, amended. A styling element writes nothing itself and changes no flag: its walk is the
  walk of its children, in order, from the same state, and the children have the styling
  element as their parent. A text node directly inside it is trimmed on the right only and
  written by the rule for inline text (a leading space if and only if the previous emission
  was inline text, then the text; afterwards \<open>lastNodeWasBlock\<close> is false and
  \<open>lastNodeWasText\<close> is true), whatever the tag of the enclosing block is.
\<close>

theorem styling_element_walk:
  "stylingTags tag \<Longrightarrow>
     extractText anc isLast (Node ElementNode tag cs) w = extractChildren ((tag, isLast) # anc) cs w
     \<and> extractText ((tag, isLast) # anc) l (Node TextNode d []) w =
         (if TrimRightFunc d = [] then w
          else w\<lparr>textBuilder :=
                    textBuilder w @ (if lastNodeWasText w then [SP] else []) @ TrimRightFunc d,
                  lastNodeWasBlock := False, lastNodeWasText := True\<rparr>)"
  by (simp add: styling_not_skipped extractText_text_leaf visitText_styling
           del: extractText.simps(1))
     (simp add: styling_not_skipped)

theorem styling_element_walk_witness:
  "stylingTags ''b''
   \<and> extractText [(''p'', True)] True (Node ElementNode ''b'' [textNode ''x'']) walk0 =
       extractChildren [(''b'', True), (''p'', True)] [textNode ''x''] walk0
   \<and> extractText [(''b'', True), (''p'', True)] True (Node TextNode ''x'' []) walk0 =
       \<lparr>textBuilder = ''x'', lastNodeWasBlock = False, lastNodeWasText = True\<rparr>"
proof -
  have s: "stylingTags ''b''"
    by (simp add: stylingTags_def)
  have t: "TrimRightFunc ''x'' = ''x''"
    by code_simp
  from styling_element_walk [OF s, of "[(''p'', True)]" True "[textNode ''x'']" walk0 True "''x''"] s t
  show ?thesis by (simp add: walk0_def)
qed

text \<open>
  C4. A text node whose trimmed content is not empty and whose parent is an \<open>a\<close> element
  writes: a newline if and only if the previous emission was inline text
  (\<open>lastNodeWasText\<close>), then the trimmed text, then a newline if and only if the anchor has
  no next sibling (\<open>aLast\<close>) and the parent of the anchor is a \<open>nav\<close>, that is, the anchor is
  the last child of a \<open>nav\<close>. Afterwards
  \<open>lastNodeWasBlock\<close> is false and \<open>lastNodeWasText\<close> is true. The ancestors of the text node
  are the anchor and, in \<open>rest\<close>, those of the anchor, the parent of the anchor first.
\<close>

theorem anchor_text_emission:
  "TrimSpace d \<noteq> [] \<Longrightarrow>
   extractText ((''a'', aLast) # rest) isLast (Node TextNode d []) w =
     w\<lparr>textBuilder := textBuilder w @ (if lastNodeWasText w then [NL] else []) @ TrimSpace d
                        @ (if aLast \<and> map fst (take 1 rest) = [''nav''] then [NL] else []),
       lastNodeWasBlock := False, lastNodeWasText := True\<rparr>"
  unfolding extractText_text_leaf by (rule visitText_anchor)

theorem anchor_text_emission_witness:
  "TrimSpace ''About'' \<noteq> []
   \<and> extractText [(''a'', True), (''nav'', False), (''body'', True)] True
        (Node TextNode ''About'' []) afterHome =
       \<lparr>textBuilder = ''Home'' @ [NL] @ ''About'' @ [NL],
        lastNodeWasBlock = False, lastNodeWasText = True\<rparr>"
proof -
  have t: "TrimSpace ''About'' = ''About''"
    by code_simp
  from anchor_text_emission
         [of "''About''" True "[(''nav'', False), (''body'', True)]" True afterHome] t
  show ?thesis by (simp add: afterHome_def)
qed

text \<open>
  C5. A text node whose trimmed content is not empty and whose parent is an \<open>h1\<close>, ...,
  \<open>h6\<close> element writes a newline exactly when \<open>lastNodeWasBlock\<close> is false, then the trimmed
  text, then two newlines; afterwards \<open>lastNodeWasBlock\<close> is true and \<open>lastNodeWasText\<close> is
  false. For the tree the parser builds from \<open><h1>T</h1><p>C</p>\<close> the result is \<open>T\<close>, two
  newlines, \<open>C\<close>, two newlines.
\<close>

theorem heading_text_emission:
  "(TrimSpace d \<noteq> [] \<and> h \<in> {''h1'', ''h2'', ''h3'', ''h4'', ''h5'', ''h6''} \<longrightarrow>
      extractText ((h, hLast) # rest) isLast (Node TextNode d []) w =
        w\<lparr>textBuilder :=
             textBuilder w @ (if \<not> lastNodeWasBlock w then [NL] else []) @ TrimSpace d @ [NL, NL],
          lastNodeWasBlock := True, lastNodeWasText := False\<rparr>)
   \<and> (parse ''<h1>T</h1><p>C</p>'' = Some headingThenPara \<longrightarrow>
        stripHTMLTags parse ''<h1>T</h1><p>C</p>'' = (''T'' @ [NL, NL] @ ''C'' @ [NL, NL], None))"
proof (intro conjI impI)
  assume "TrimSpace d \<noteq> [] \<and> h \<in> {''h1'', ''h2'', ''h3'', ''h4'', ''h5'', ''h6''}"
  then show "extractText ((h, hLast) # rest) isLast (Node TextNode d []) w =
        w\<lparr>textBuilder :=
             textBuilder w @ (if \<not> lastNodeWasBlock w then [NL] else []) @ TrimSpace d @ [NL, NL],
          lastNodeWasBlock := True, lastNodeWasText := False\<rparr>"
    unfolding extractText_text_leaf by (intro visitText_heading) simp_all
next
  have "stripParsed headingThenPara = ''T'' @ [NL, NL] @ ''C'' @ [NL, NL]"
    by code_simp
  moreover assume "parse ''<h1>T</h1><p>C</p>'' = Some headingThenPara"
  ultimately show "stripHTMLTags parse ''<h1>T</h1><p>C</p>'' =
                     (''T'' @ [NL, NL] @ ''C'' @ [NL, NL], None)"
    by (simp add: stripHTMLTags_def)
qed

theorem heading_text_emission_witness:
  "TrimSpace ''T'' \<noteq> [] \<and> ''h1'' \<in> {''h1'', ''h2'', ''h3'', ''h4'', ''h5'', ''h6''}
   \<and> extractText [(''h1'', False), (''body'', True)] True (Node TextNode ''T'' []) walk0 =
       \<lparr>textBuilder = [NL] @ ''T'' @ [NL, NL], lastNodeWasBlock = True, lastNodeWasText = False\<rparr>
   \<and> (\<lambda>h. Some headingThenPara) ''<h1>T</h1><p>C</p>'' = Some headingThenPara
   \<and> stripHTMLTags (\<lambda>h. Some headingThenPara) ''<h1>T</h1><p>C</p>'' =
       (''T'' @ [NL, NL] @ ''C'' @ [NL, NL], None)"
proof -
  have t: "TrimSpace ''T'' = ''T''"
    by code_simp
  from heading_text_emission
         [of "''T''" "''h1''" False "[(''body'', True)]" True walk0 "\<lambda>h. Some headingThenPara"] t
  show ?thesis by (simp add: walk0_def)
qed


section \<open>The clean mode of createPDF\<close>

lemma cleanLoop_filter:
  "cleanLoop lines cleanedLines =
     cleanedLines @
     filter (\<lambda>line. TrimSpace line = [] \<or> 2 < length (Fields (TrimSpace line))) lines"
  by (induction lines arbitrary: cleanedLines) (auto simp: Let_def)

text \<open>
  C6, as the specification states it: every non-empty line with two words or fewer is
  dropped. It fails on a line that holds white space only. The extraction of
  \<open><p>a b c</p><span> \n x y z</span>\<close> has the line of one space; that line is not
  empty and has no word, and the clean mode keeps it, since the loop keeps every line that
  is empty after \<open>strings.TrimSpace\<close>.
\<close>

theorem clean_mode_counterexample:
  "[SP] \<in> set (Split (stripParsed blankLineDoc) NL) \<and> [SP] \<noteq> [] \<and> length (Fields [SP]) \<le> 2
   \<and> [SP] \<in> set (cleanLoop (Split (stripParsed blankLineDoc) NL) [])"
  by code_simp

text \<open>
  C6, amended. In clean mode the lines of the extracted text (split on newlines) are
  filtered, in order: a line that is not empty after trimming white space and has two
  words or fewer is dropped, a line with three words or more is kept, and a line that is
  empty or holds white space only is kept unchanged. The filter runs on the result of the
  extraction and its result is what is split into lines for the PDF, so the bullet of a
  list item counts as a word: the line of \<open>Point 1\<close> with its bullet is kept, and the same
  two words without the bullet are dropped.
\<close>

theorem clean_mode_filter:
  "cleanLoop lines [] =
     filter (\<lambda>line. TrimSpace line = [] \<or> 2 < length (Fields (TrimSpace line))) lines
   \<and> (\<forall>line \<in> set lines.
        (TrimSpace line \<noteq> [] \<and> length (Fields (TrimSpace line)) \<le> 2 \<longrightarrow>
           line \<notin> set (cleanLoop lines []))
        \<and> (2 < length (Fields (TrimSpace line)) \<longrightarrow> line \<in> set (cleanLoop lines []))
        \<and> (TrimSpace line = [] \<longrightarrow> line \<in> set (cleanLoop lines [])))
   \<and> (stripHTML s \<and> clean s \<and> htmlParse e html = Some doc \<and> outputFileAndClose e filename \<longrightarrow>
        createPDF e s filename html wd =
          (None, wd\<lparr>pdfFiles := (pdfFiles wd)(filename \<mapsto>
             MultiCells (Split (Join (cleanLoop (Split (stripParsed doc) NL) []) [NL]) NL))\<rparr>))
   \<and> cleanLoop [bullet @ ''Point 1'', ''Point 1''] [] = [bullet @ ''Point 1'']"
proof (intro conjI)
  show "cleanLoop lines [] =
     filter (\<lambda>line. TrimSpace line = [] \<or> 2 < length (Fields (TrimSpace line))) lines"
    by (simp add: cleanLoop_filter)
  show "\<forall>line \<in> set lines.
        (TrimSpace line \<noteq> [] \<and> length (Fields (TrimSpace line)) \<le> 2 \<longrightarrow>
           line \<notin> set (cleanLoop lines []))
        \<and> (2 < length (Fields (TrimSpace line)) \<longrightarrow> line \<in> set (cleanLoop lines []))
        \<and> (TrimSpace line = [] \<longrightarrow> line \<in> set (cleanLoop lines []))"
    by (auto simp: cleanLoop_filter)
  show "stripHTML s \<and> clean s \<and> htmlParse e html = Some doc \<and> outputFileAndClose e filename \<longrightarrow>
        createPDF e s filename html wd =
          (None, wd\<lparr>pdfFiles := (pdfFiles wd)(filename \<mapsto>
             MultiCells (Split (Join (cleanLoop (Split (stripParsed doc) NL) []) [NL]) NL))\<rparr>)"
    by (simp add: createPDF_def pdfContent_def stripHTMLTags_def cleanContent_def)
  show "cleanLoop [bullet @ ''Point 1'', ''Point 1''] [] = [bullet @ ''Point 1'']"
    by code_simp
qed

theorem clean_mode_filter_witness:
  "bullet @ ''x'' \<in> set (Split (stripParsed listDoc) NL)
   \<and> TrimSpace (bullet @ ''x'') \<noteq> [] \<and> length (Fields (TrimSpace (bullet @ ''x''))) \<le> 2
   \<and> bullet @ ''x'' \<notin> set (cleanLoop (Split (stripParsed listDoc) NL) [])
   \<and> bullet @ ''Point 1'' \<in> set (Split (stripParsed listDoc) NL)
   \<and> 2 < length (Fields (TrimSpace (bullet @ ''Point 1'')))
   \<and> bullet @ ''Point 1'' \<in> set (cleanLoop (Split (stripParsed listDoc) NL) [])
   \<and> [] \<in> set (Split (stripParsed listDoc) NL) \<and> TrimSpace [] = []
   \<and> [] \<in> set (cleanLoop (Split (stripParsed listDoc) NL) [])
   \<and> stripHTML (NewScraper True True) \<and> clean (NewScraper True True)
   \<and> htmlParse demoEnv ''<ul><li>Point 1</li><li>x</li></ul><p>ok</p>'' = Some listDoc
   \<and> outputFileAndClose demoEnv ''f.pdf''
   \<and> createPDF demoEnv (NewScraper True True) ''f.pdf''
         ''<ul><li>Point 1</li><li>x</li></ul><p>ok</p>'' world0 =
       (None, world0\<lparr>pdfFiles := (pdfFiles world0)(''f.pdf'' \<mapsto>
          MultiCells (Split (Join (cleanLoop (Split (stripParsed listDoc) NL) []) [NL]) NL))\<rparr>)"
proof -
  have m: "bullet @ ''x'' \<in> set (Split (stripParsed listDoc) NL)"
          "bullet @ ''Point 1'' \<in> set (Split (stripParsed listDoc) NL)"
          "[] \<in> set (Split (stripParsed listDoc) NL)"
    by code_simp+
  have w: "TrimSpace (bullet @ ''x'') \<noteq> []" "length (Fields (TrimSpace (bullet @ ''x''))) \<le> 2"
          "2 < length (Fields (TrimSpace (bullet @ ''Point 1'')))"
    by code_simp+
  have h: "stripHTML (NewScraper True True)" "clean (NewScraper True True)"
          "htmlParse demoEnv ''<ul><li>Point 1</li><li>x</li></ul><p>ok</p>'' = Some listDoc"
          "outputFileAndClose demoEnv ''f.pdf''"
    by (simp_all add: NewScraper_def demoEnv_def)
  from clean_mode_filter
         [of "Split (stripParsed listDoc) NL" "NewScraper True True" demoEnv
             "''<ul><li>Point 1</li><li>x</li></ul><p>ok</p>''" listDoc "''f.pdf''" world0]
  have c: "\<forall>line \<in> set (Split (stripParsed listDoc) NL).
        (TrimSpace line \<noteq> [] \<and> length (Fields (TrimSpace line)) \<le> 2 \<longrightarrow>
           line \<notin> set (cleanLoop (Split (stripParsed listDoc) NL) []))
        \<and> (2 < length (Fields (TrimSpace line)) \<longrightarrow>
             line \<in> set (cleanLoop (Split (stripParsed listDoc) NL) []))
        \<and> (TrimSpace line = [] \<longrightarrow> line \<in> set (cleanLoop (Split (stripParsed listDoc) NL) []))"
    and p: "stripHTML (NewScraper True True) \<and> clean (NewScraper True True)
        \<and> htmlParse demoEnv ''<ul><li>Point 1</li><li>x</li></ul><p>ok</p>'' = Some listDoc
        \<and> outputFileAndClose demoEnv ''f.pdf'' \<longrightarrow>
        createPDF demoEnv (NewScraper True True) ''f.pdf''
          ''<ul><li>Point 1</li><li>x</li></ul><p>ok</p>'' world0 =
        (None, world0\<lparr>pdfFiles := (pdfFiles world0)(''f.pdf'' \<mapsto>
          MultiCells (Split (Join (cleanLoop (Split (stripParsed listDoc) NL) []) [NL]) NL))\<rparr>)"
    by blast+
  from c m(1) w(1,2) have d1: "bullet @ ''x'' \<notin> set (cleanLoop (Split (stripParsed listDoc) NL) [])"
    by blast
  from c m(2) w(3) have d2: "bullet @ ''Point 1'' \<in> set (cleanLoop (Split (stripParsed listDoc) NL) [])"
    by blast
  from c m(3) TrimSpace_Nil have d3: "[] \<in> set (cleanLoop (Split (stripParsed listDoc) NL) [])"
    by blast
  from p h have d4: "createPDF demoEnv (NewScraper True True) ''f.pdf''
          ''<ul><li>Point 1</li><li>x</li></ul><p>ok</p>'' world0 =
        (None, world0\<lparr>pdfFiles := (pdfFiles world0)(''f.pdf'' \<mapsto>
          MultiCells (Split (Join (cleanLoop (Split (stripParsed listDoc) NL) []) [NL]) NL))\<rparr>)"
    by blast
  from m w h d1 d2 d3 d4 TrimSpace_Nil show ?thesis
    by (intro conjI)
qed

section \<open>The names of the archive entries\<close>

lemma ReplaceAll_slash:
  "ReplaceAll s ''/'' ''_'' = map (\<lambda>c. if c = CHR ''/'' then CHR ''_'' else c) s"
proof (induction s)
  case Nil
  show ?case by (subst ReplaceAll.simps) simp
next
  case (Cons x xs)
  show ?case
  proof (cases "x = CHR ''/''")
    case True
    with Cons show ?thesis by (subst ReplaceAll.simps) simp
  next
    case False
    with Cons show ?thesis by (subst ReplaceAll.simps) simp
  qed
qed

lemma rev_dropWhile_takeWhile:
  "xs = rev (dropWhile P (rev xs)) @ rev (takeWhile P (rev xs))"
  by (metis rev_append rev_rev_ident takeWhile_dropWhile_id)

lemma Trim_decomp:
  "\<exists>a b. p = a @ Trim p c @ b \<and> set a \<subseteq> {c} \<and> set b \<subseteq> {c}"
proof -
  define r where "r = dropWhile (\<lambda>x. x = c) p"
  have p: "p = takeWhile (\<lambda>x. x = c) p @ r"
    by (simp add: r_def)
  have r: "r = Trim p c @ rev (takeWhile (\<lambda>x. x = c) (rev r))"
    unfolding Trim_def r_def by (rule rev_dropWhile_takeWhile)
  have a: "set (takeWhile (\<lambda>x. x = c) p) \<subseteq> {c}"
    by (auto dest: set_takeWhileD)
  have b: "set (rev (takeWhile (\<lambda>x. x = c) (rev r))) \<subseteq> {c}"
    by (auto dest: set_takeWhileD)
  from p r have "p = takeWhile (\<lambda>x. x = c) p @ Trim p c @ rev (takeWhile (\<lambda>x. x = c) (rev r))"
    by simp
  with a b show ?thesis by blast
qed

lemma Trim_no_trailing: "Trim p c \<noteq> xs @ [c]"
proof
  assume "Trim p c = xs @ [c]"
  then have "rev (Trim p c) = c # rev xs" by simp
  then have "dropWhile (\<lambda>x. x = c) (rev (dropWhile (\<lambda>x. x = c) p)) = c # rev xs"
    by (simp add: Trim_def)
  then show False
    using hd_dropWhile [of "\<lambda>x. x = c" "rev (dropWhile (\<lambda>x. x = c) p)"] by simp
qed

lemma Trim_no_leading: "Trim p c \<noteq> c # xs"
proof
  assume t: "Trim p c = c # xs"
  define r where "r = dropWhile (\<lambda>x. x = c) p"
  have "r = Trim p c @ rev (takeWhile (\<lambda>x. x = c) (rev r))"
    unfolding Trim_def r_def by (rule rev_dropWhile_takeWhile)
  with t have "r = c # xs @ rev (takeWhile (\<lambda>x. x = c) (rev r))" by simp
  then obtain ys where "r = c # ys" by blast
  then have "r \<noteq> []" "hd r = c" by simp_all
  then show False
    using hd_dropWhile [of "\<lambda>x. x = c" p] by (simp add: r_def)
qed

lemma sanitizePath_no_slash: "CHR ''/'' \<notin> set (sanitizePath p)"
  by (auto simp: sanitizePath_def ReplaceAll_slash)

lemma zipLoop_success:
  "zipLoop e wd ps archive = (None, archive') \<Longrightarrow>
     \<exists>new. archive' = archive @ new \<and>
       list_all2 (\<lambda>up entry. \<exists>u content. urlParse e (fst up) = Some u \<and> pdfFiles wd (snd up) = Some content
                     \<and> entry = (zipEntryName u, content)) ps new"
proof (induction ps arbitrary: archive)
  case Nil
  then show ?case by simp
next
  case (Cons a ps)
  obtain urlStr pdfPath where a: "a = (urlStr, pdfPath)" by (cases a)
  from Cons.prems a obtain u content where
    u: "urlParse e urlStr = Some u" and f: "pdfFiles wd pdfPath = Some content"
    and rest: "zipLoop e wd ps (archive @ [(zipEntryName u, content)]) = (None, archive')"
    by (auto split: option.splits if_splits)
  from Cons.IH [OF rest] obtain new where
    n: "archive' = (archive @ [(zipEntryName u, content)]) @ new"
    and l: "list_all2 (\<lambda>up entry. \<exists>u content. urlParse e (fst up) = Some u \<and> pdfFiles wd (snd up) = Some content
                     \<and> entry = (zipEntryName u, content)) ps new"
    by blast
  from u f l a have "list_all2 (\<lambda>up entry. \<exists>u content. urlParse e (fst up) = Some u \<and> pdfFiles wd (snd up) = Some content
                     \<and> entry = (zipEntryName u, content)) (a # ps) ((zipEntryName u, content) # new)"
    by simp
  with n show ?case by (intro exI [of _ "(zipEntryName u, content) # new"]) simp
qed

lemma createZip_success:
  assumes "createZip e s zipname wd = (None, wd')"
  shows "\<exists>archive. zipFiles wd' zipname = Some archive \<and>
       list_all2 (\<lambda>up entry. \<exists>u content. urlParse e (fst up) = Some u \<and> pdfFiles wd (snd up) = Some content
                     \<and> entry = (zipEntryName u, content)) (pdfs s) archive"
proof -
  from assms obtain archive where z: "zipLoop e wd (pdfs s) [] = (None, archive)"
    and w: "wd' = wd\<lparr>zipFiles := (zipFiles wd)(zipname \<mapsto> archive)\<rparr>"
    by (auto simp: createZip_def split: if_splits prod.splits)
  from zipLoop_success [OF z] w show ?thesis by auto
qed

text \<open>
  C7. The name of an archive entry is the host, an underscore, the sanitized path and
  \<open>.pdf\<close>. The sanitized path of the empty path and of \<open>/\<close> is \<open>index\<close>; of any other path
  it is the path without its leading and trailing slashes (what is cut off on either side
  is slashes only, and what is left neither starts nor ends with a slash), with every
  slash that is left replaced by an underscore, so that no slash remains. When \<open>createZip\<close>
  succeeds, the archive it wrote has exactly one entry for each artifact, in the order of
  the loop, and each entry bears the name computed from the parsed URL of its artifact.
\<close>

theorem archive_entry_names:
  "sanitizePath [] = ''index'' \<and> sanitizePath ''/'' = ''index''
   \<and> (p \<noteq> [] \<and> p \<noteq> ''/'' \<longrightarrow>
        sanitizePath p = map (\<lambda>c. if c = CHR ''/'' then CHR ''_'' else c) (Trim p (CHR ''/'')))
   \<and> (\<exists>a b. p = a @ Trim p (CHR ''/'') @ b \<and> set a \<subseteq> {CHR ''/''} \<and> set b \<subseteq> {CHR ''/''})
   \<and> (\<forall>xs. Trim p (CHR ''/'') \<noteq> CHR ''/'' # xs \<and> Trim p (CHR ''/'') \<noteq> xs @ [CHR ''/''])
   \<and> CHR ''/'' \<notin> set (sanitizePath p)
   \<and> zipEntryName u = Host u @ ''_'' @ sanitizePath (Path u) @ ''.pdf''
   \<and> (createZip e s zipname wd = (None, wd') \<longrightarrow>
        (\<exists>archive. zipFiles wd' zipname = Some archive \<and> length archive = length (pdfs s)
           \<and> list_all2 (\<lambda>up entry. \<exists>v. urlParse e (fst up) = Some v
                           \<and> fst entry = Host v @ ''_'' @ sanitizePath (Path v) @ ''.pdf'')
                (pdfs s) archive))"
proof (intro conjI impI)
  show "sanitizePath [] = ''index''"
    by code_simp
  show "sanitizePath ''/'' = ''index''"
    by code_simp
  show "sanitizePath p = map (\<lambda>c. if c = CHR ''/'' then CHR ''_'' else c) (Trim p (CHR ''/''))"
    if "p \<noteq> [] \<and> p \<noteq> ''/''"
    using that by (simp add: sanitizePath_def ReplaceAll_slash)
  show "\<exists>a b. p = a @ Trim p (CHR ''/'') @ b \<and> set a \<subseteq> {CHR ''/''} \<and> set b \<subseteq> {CHR ''/''}"
    by (rule Trim_decomp)
  show "\<forall>xs. Trim p (CHR ''/'') \<noteq> CHR ''/'' # xs \<and> Trim p (CHR ''/'') \<noteq> xs @ [CHR ''/'']"
    by (simp add: Trim_no_leading Trim_no_trailing)
  show "CHR ''/'' \<notin> set (sanitizePath p)"
    by (rule sanitizePath_no_slash)
  show "zipEntryName u = Host u @ ''_'' @ sanitizePath (Path u) @ ''.pdf''"
    by (simp add: zipEntryName_def)
next
  assume "createZip e s zipname wd = (None, wd')"
  from createZip_success [OF this] obtain archive where
    z: "zipFiles wd' zipname = Some archive"
    and l: "list_all2 (\<lambda>up entry. \<exists>u content. urlParse e (fst up) = Some u
                         \<and> pdfFiles wd (snd up) = Some content
                         \<and> entry = (zipEntryName u, content)) (pdfs s) archive"
    by blast
  from l have n: "length archive = length (pdfs s)"
    by (simp add: list_all2_lengthD)
  from l have "list_all2 (\<lambda>up entry. \<exists>v. urlParse e (fst up) = Some v
                           \<and> fst entry = Host v @ ''_'' @ sanitizePath (Path v) @ ''.pdf'')
                (pdfs s) archive"
    by (rule list_all2_mono) (auto simp: zipEntryName_def)
  with z n show "\<exists>archive. zipFiles wd' zipname = Some archive \<and> length archive = length (pdfs s)
           \<and> list_all2 (\<lambda>up entry. \<exists>v. urlParse e (fst up) = Some v
                           \<and> fst entry = Host v @ ''_'' @ sanitizePath (Path v) @ ''.pdf'')
                (pdfs s) archive"
    by blast
qed

theorem archive_entry_names_witness:
  "''/docs/api/'' \<noteq> [] \<and> ''/docs/api/'' \<noteq> ''/'' \<and> sanitizePath ''/docs/api/'' = ''docs_api''
   \<and> createZip demoEnv twoPdfs ''out.zip'' twoFiles =
       (None, snd (createZip demoEnv twoPdfs ''out.zip'' twoFiles))
   \<and> (\<exists>archive. zipFiles (snd (createZip demoEnv twoPdfs ''out.zip'' twoFiles)) ''out.zip''
                   = Some archive
          \<and> length archive = length (pdfs twoPdfs)
          \<and> map fst archive = [''example.com_index.pdf'', ''example.com_docs_api.pdf''])"
proof -
  have ok: "createZip demoEnv twoPdfs ''out.zip'' twoFiles =
              (None, snd (createZip demoEnv twoPdfs ''out.zip'' twoFiles))"
  proof -
    have "fst (createZip demoEnv twoPdfs ''out.zip'' twoFiles) = None"
      by code_simp
    then show ?thesis
      by (metis prod.collapse)
  qed
  have t: "Trim ''/docs/api/'' (CHR ''/'') = ''docs/api''"
    by code_simp
  have names: "map fst (the (zipFiles (snd (createZip demoEnv twoPdfs ''out.zip'' twoFiles))
                               ''out.zip''))
               = [''example.com_index.pdf'', ''example.com_docs_api.pdf'']"
    by code_simp
  from archive_entry_names
         [of "''/docs/api/''" urlRoot demoEnv twoPdfs "''out.zip''" twoFiles
             "snd (createZip demoEnv twoPdfs ''out.zip'' twoFiles)"] ok
  obtain archive where
    s: "sanitizePath ''/docs/api/'' =
          map (\<lambda>c. if c = CHR ''/'' then CHR ''_'' else c) (Trim ''/docs/api/'' (CHR ''/''))"
    and a: "zipFiles (snd (createZip demoEnv twoPdfs ''out.zip'' twoFiles)) ''out.zip'' = Some archive"
           "length archive = length (pdfs twoPdfs)"
    by auto
  from s t have s': "sanitizePath ''/docs/api/'' = ''docs_api''"
    by simp
  from a names have "map fst archive = [''example.com_index.pdf'', ''example.com_docs_api.pdf'']"
    by simp
  with a s' ok show ?thesis
    by (intro conjI exI [of _ archive]) simp_all
qed


section \<open>ScrapeAndSave\<close>

lemma createPDF_zipFiles: "zipFiles (snd (createPDF e s filename h wd)) = zipFiles wd"
  by (simp add: createPDF_def split: sum.splits)

lemma OnResponse_zipFiles: "zipFiles (snd (OnResponse e tmpDir r sw)) = zipFiles (snd sw)"
proof (cases sw)
  case (Pair s wd)
  have "zipFiles wd1 = zipFiles wd"
    if "createPDF e s1 f (Body r) wd = (x, wd1)" for s1 f x wd1
    using createPDF_zipFiles [of e s1 f "Body r" wd] that by simp
  with Pair show ?thesis
    by (auto simp: OnResponse_def Let_def split: prod.splits option.splits)
qed

lemma OnResponse_pdfs:
  "pdfs (fst sw) \<noteq> [] \<Longrightarrow> pdfs (fst (OnResponse e tmpDir r sw)) \<noteq> []"
proof (cases sw)
  case (Pair s wd)
  assume "pdfs (fst sw) \<noteq> []"
  with Pair have n: "pdfs s \<noteq> []"
    by simp
  have "AList.update k v (pdfs s) \<noteq> []" for k v
    using n by (cases "pdfs s") (auto split: if_splits)
  with Pair n show ?thesis
    by (auto simp: OnResponse_def Let_def split: prod.splits option.splits)
qed

lemma fold_OnResponse_zipFiles:
  "zipFiles (snd (fold (OnResponse e tmpDir) rs sw)) = zipFiles (snd sw)"
  by (induction rs arbitrary: sw) (simp_all add: OnResponse_zipFiles)

lemma fold_OnResponse_pdfs:
  "pdfs (fst sw) \<noteq> [] \<Longrightarrow> pdfs (fst (fold (OnResponse e tmpDir) rs sw)) \<noteq> []"
  by (induction rs arbitrary: sw) (simp_all add: OnResponse_pdfs)

lemma RemoveAll_zipFiles: "zipFiles (RemoveAll dir wd) = zipFiles wd"
  by (simp add: RemoveAll_def)

lemma scrapeBody_outcome:
  assumes "scrapeBody e tmpDir startURL outputPath (s, wd) = (err, s', wd')"
  shows "(pdfs s' = [] \<longrightarrow>
            err \<in> {Some StartScrapingFailed, Some NoPagesScraped} \<and> zipFiles wd' = zipFiles wd)
         \<and> (pdfs s = [] \<and> pdfs s' \<noteq> [] \<longrightarrow>
              (\<exists>wd1. err = map_option CreateZipFailed (fst (createZip e s' outputPath wd1))
                     \<and> wd' = snd (createZip e s' outputPath wd1)))"
proof (cases "visit e startURL")
  case None
  with assms show ?thesis
    by (simp add: scrapeBody_def)
next
  case (Some rs)
  obtain s1 wd1 where f: "fold (OnResponse e tmpDir) rs (s, wd) = (s1, wd1)"
    by (cases "fold (OnResponse e tmpDir) rs (s, wd)")
  from fold_OnResponse_zipFiles [of e tmpDir rs "(s, wd)"] f
  have z: "zipFiles wd1 = zipFiles wd"
    by simp
  show ?thesis
  proof (cases "pdfs s1 = []")
    case True
    with assms Some f z show ?thesis
      by (simp add: scrapeBody_def)
  next
    case False
    obtain x wd2 where c: "createZip e s1 outputPath wd1 = (x, wd2)"
      by (cases "createZip e s1 outputPath wd1")
    from assms Some f False c have r: "s' = s1" "wd' = wd2" "err = map_option CreateZipFailed x"
      by (auto simp: scrapeBody_def split: option.splits)
    with False c show ?thesis
      by (intro conjI impI exI [of _ wd1]) simp_all
  qed
qed

text \<open>
  C8. If the scraper holds no artifact when \<open>ScrapeAndSave\<close> returns, the operation has
  failed with an error (after a crawl that ran, with the error that no page was scraped)
  and no archive file was created or changed. If it started without artifacts and holds
  at least one when it returns, \<open>createZip\<close> was called on the output path: the error
  returned is that of \<open>createZip\<close>, wrapped, or none, and the files are those \<open>createZip\<close>
  left, less the temporary directory. A new scraper holds no artifact, so the artifacts it
  holds when \<open>ScrapeAndSave\<close> returns are those the crawl produced.
\<close>

theorem zero_artifacts_no_archive:
  "ScrapeAndSave e startURL outputPath (s, wd) = (err, s', wd') \<Longrightarrow>
     (pdfs s' = [] \<longrightarrow>
        err \<in> {Some InvalidURL, Some CreateOutputDirFailed, Some CreateTempDirFailed,
               Some StartScrapingFailed, Some NoPagesScraped}
        \<and> zipFiles wd' = zipFiles wd)
     \<and> (pdfs s' = [] \<and> urlParse e startURL \<noteq> None \<and> mkdirAll e outputPath \<and> mkdirTemp e \<noteq> None
          \<and> visit e startURL \<noteq> None \<longrightarrow> err = Some NoPagesScraped)
     \<and> (pdfs s = [] \<and> pdfs s' \<noteq> [] \<longrightarrow>
          (\<exists>tmpDir wd1. err = map_option CreateZipFailed (fst (createZip e s' outputPath wd1))
             \<and> wd' = RemoveAll tmpDir (snd (createZip e s' outputPath wd1))))"
proof -
  assume a: "ScrapeAndSave e startURL outputPath (s, wd) = (err, s', wd')"
  show ?thesis
  proof (cases "urlParse e startURL = None \<or> \<not> mkdirAll e outputPath \<or> mkdirTemp e = None")
    case True
    with a have "s' = s \<and> wd' = wd
        \<and> err \<in> {Some InvalidURL, Some CreateOutputDirFailed, Some CreateTempDirFailed}"
      by (auto simp: ScrapeAndSave_def split: option.splits if_splits)
    with True show ?thesis
      by auto
  next
    case False
    then obtain u tmpDir where u: "urlParse e startURL = Some u" "mkdirAll e outputPath"
      "mkdirTemp e = Some tmpDir"
      by auto
    obtain x s1 wd1 where b: "scrapeBody e tmpDir startURL outputPath (s, wd) = (x, s1, wd1)"
      by (cases "scrapeBody e tmpDir startURL outputPath (s, wd)") auto
    with a u have r: "err = x" "s' = s1" "wd' = RemoveAll tmpDir wd1"
      by (simp_all add: ScrapeAndSave_def)
    note o = scrapeBody_outcome [OF b]
    have 1: "pdfs s' = [] \<longrightarrow>
        err \<in> {Some InvalidURL, Some CreateOutputDirFailed, Some CreateTempDirFailed,
               Some StartScrapingFailed, Some NoPagesScraped}
        \<and> zipFiles wd' = zipFiles wd"
      using o r by (auto simp: RemoveAll_zipFiles)
    have 2: "pdfs s' = [] \<and> urlParse e startURL \<noteq> None \<and> mkdirAll e outputPath
          \<and> mkdirTemp e \<noteq> None \<and> visit e startURL \<noteq> None \<longrightarrow> err = Some NoPagesScraped"
      using b r by (auto simp: scrapeBody_def split: option.splits prod.splits if_splits)
    have 3: "pdfs s = [] \<and> pdfs s' \<noteq> [] \<longrightarrow>
          (\<exists>tmpDir wd1. err = map_option CreateZipFailed (fst (createZip e s' outputPath wd1))
             \<and> wd' = RemoveAll tmpDir (snd (createZip e s' outputPath wd1)))"
      using o r by blast
    from 1 2 3 show ?thesis
      by (intro conjI)
  qed
qed


theorem zero_artifacts_no_archive_witness:
  "pdfs (fst (snd failedRun)) = []
   \<and> urlParse failEnv ''http://example.com/'' \<noteq> None \<and> mkdirAll failEnv ''out/example.com.zip''
   \<and> mkdirTemp failEnv \<noteq> None \<and> visit failEnv ''http://example.com/'' \<noteq> None
   \<and> fst failedRun = Some NoPagesScraped
   \<and> zipFiles (snd (snd failedRun)) = zipFiles world0
   \<and> pdfs (NewScraper False False) = [] \<and> pdfs (fst (snd demoRun)) \<noteq> []
   \<and> (\<exists>tmpDir wd1.
         fst demoRun =
           map_option CreateZipFailed
             (fst (createZip demoEnv (fst (snd demoRun)) ''out/example.com.zip'' wd1))
         \<and> snd (snd demoRun) =
             RemoveAll tmpDir (snd (createZip demoEnv (fst (snd demoRun)) ''out/example.com.zip'' wd1)))"
proof -
  have f: "ScrapeAndSave failEnv ''http://example.com/'' ''out/example.com.zip''
             (NewScraper False False, world0)
           = (fst failedRun, fst (snd failedRun), snd (snd failedRun))"
    by (simp add: failedRun_def)
  have d: "ScrapeAndSave demoEnv ''http://example.com/'' ''out/example.com.zip''
             (NewScraper False False, world0)
           = (fst demoRun, fst (snd demoRun), snd (snd demoRun))"
    by (simp add: demoRun_def)
  have h: "pdfs (fst (snd failedRun)) = []" "urlParse failEnv ''http://example.com/'' \<noteq> None"
          "mkdirAll failEnv ''out/example.com.zip''" "mkdirTemp failEnv \<noteq> None"
          "visit failEnv ''http://example.com/'' \<noteq> None"
          "pdfs (NewScraper False False) = []" "pdfs (fst (snd demoRun)) \<noteq> []"
    by code_simp+
  from zero_artifacts_no_archive [OF f] h
  have 1: "fst failedRun = Some NoPagesScraped" "zipFiles (snd (snd failedRun)) = zipFiles world0"
    by blast+
  from zero_artifacts_no_archive [OF d] h
  have 2: "\<exists>tmpDir wd1.
         fst demoRun =
           map_option CreateZipFailed
             (fst (createZip demoEnv (fst (snd demoRun)) ''out/example.com.zip'' wd1))
         \<and> snd (snd demoRun) =
             RemoveAll tmpDir (snd (createZip demoEnv (fst (snd demoRun)) ''out/example.com.zip'' wd1))"
    by blast
  from h 1 2 show ?thesis
    by (intro conjI)
qed

text \<open>
  C9. The name of an archive entry does not determine the URL. Two URLs that differ in the
  query string only, and two that differ in a trailing slash of the path only, are
  different strings with the same entry name. On the site above the scraper records three
  artifacts under three different URL strings, and the archive it writes has two entries
  of the same name.
\<close>

theorem entry_names_not_injective:
  "String urlA \<noteq> String urlB \<and> zipEntryName urlA = zipEntryName urlB
   \<and> String urlC \<noteq> String urlD \<and> zipEntryName urlC = zipEntryName urlD
   \<and> urlParse demoEnv (String urlA) = Some urlA \<and> urlParse demoEnv (String urlB) = Some urlB
   \<and> fst demoRun = None
   \<and> map fst (pdfs (fst (snd demoRun))) = [String urlRoot, String urlA, String urlB]
   \<and> zipFiles (snd (snd demoRun)) ''out/example.com.zip'' =
       Some [(''example.com_index.pdf'', [''root'']),
             (''example.com_a.pdf'', [''two'']),
             (''example.com_a.pdf'', [''two''])]"
  by code_simp

end
